theory Spec2Isabelle
  imports Complex_Main "HOL-Library.AList"
begin

section \<open>Values exchanged with the web framework\<close>

text \<open>
  The service of \<^verbatim>\<open>main.py\<close> is a set of request handlers. Each handler is embedded as a
  function from its bound parameters to what it returns or raises. The Python values the
  handlers build are dictionaries of strings, lists and \<^verbatim>\<open>None\<close>; they are kept as an ordered
  association list, as the dictionary literals of the source are written.
\<close>

datatype json = JNull | JString string | JArray "json list" | JObject "(string \<times> json) list"

text \<open>\<^verbatim>\<open>HTTPException(status_code=..., detail=...)\<close>.\<close>

datatype http_exception = HTTPException nat string

text \<open>
  A response: the status, the headers that the handlers themselves set (the framework's own
  \<^verbatim>\<open>content-type\<close> and \<^verbatim>\<open>content-length\<close> and the headers of the CORS middleware are not part
  of the model) and the content, absent for a redirect.
\<close>

record response =
  status_code :: nat
  headers :: "(string \<times> string) list"
  body :: "json option"

text \<open>\<^verbatim>\<open>JSONResponse(content, status_code=200)\<close>; the status is passed explicitly here.\<close>

definition JSONResponse :: "nat \<Rightarrow> json \<Rightarrow> response" where
  "JSONResponse code content = \<lparr>status_code = code, headers = [], body = Some content\<rparr>"

text \<open>
  \<^verbatim>\<open>RedirectResponse(url, status_code)\<close> stores the target under \<^verbatim>\<open>location\<close>. The class
  percent-quotes the target; every character of \<^verbatim>\<open>/portfolio\<close>, the only target of this
  program, is left as it is by that quoting.
\<close>

definition RedirectResponse :: "string \<Rightarrow> nat \<Rightarrow> response" where
  "RedirectResponse url code = \<lparr>status_code = code, headers = [(''location'', url)], body = None\<rparr>"

text \<open>\<^verbatim>\<open>response.headers[key] = value\<close>: replaces the entry of the key or appends one.\<close>

definition set_header :: "response \<Rightarrow> string \<Rightarrow> string \<Rightarrow> response" where
  "set_header r k v = r\<lparr>headers := AList.update k v (headers r)\<rparr>"

text \<open>Reading a member of a dictionary, and a field of \<^verbatim>\<open>data\<close> in a response.\<close>

fun json_get :: "string \<Rightarrow> json \<Rightarrow> json option" where
  "json_get k (JObject kvs) = map_of kvs k"
| "json_get k JNull = None"
| "json_get k (JString s) = None"
| "json_get k (JArray xs) = None"

definition data_field :: "string \<Rightarrow> response \<Rightarrow> json option" where
  "data_field k r =
     (case body r of
        None \<Rightarrow> None
      | Some b \<Rightarrow> (case json_get ''data'' b of None \<Rightarrow> None | Some d \<Rightarrow> json_get k d))"

section \<open>Python string operations used by the handlers\<close>

text \<open>
  \<^verbatim>\<open>str.lower()\<close> on one character. A header value reaches the handler decoded as Latin-1,
  so its characters are the 256 values of \<^typ>\<open>char\<close>; among them Python lowers \<^verbatim>\<open>A-Z\<close>
  and the accented capitals \<^verbatim>\<open>0xC0-0xDE\<close> (not the multiplication sign \<^verbatim>\<open>0xD7\<close>), each to
  the character 32 places later.
\<close>

definition lower_char :: "char \<Rightarrow> char" where
  "lower_char c =
     (let n = (of_char c :: nat)
      in if (65 \<le> n \<and> n \<le> 90) \<or> (192 \<le> n \<and> n \<le> 222 \<and> n \<noteq> 215)
         then char_of (n + 32) else c)"

definition lower :: "string \<Rightarrow> string" where
  "lower s = map lower_char s"

text \<open>\<^verbatim>\<open>s.startswith(p)\<close> and the substring test \<^verbatim>\<open>sub in s\<close>.\<close>

fun startswith :: "string \<Rightarrow> string \<Rightarrow> bool" where
  "startswith s [] = True"
| "startswith [] (p # ps) = False"
| "startswith (c # cs) (p # ps) = (c = p \<and> startswith cs ps)"

fun str_in :: "string \<Rightarrow> string \<Rightarrow> bool" where
  "str_in sub [] = (sub = [])"
| "str_in sub (c # cs) = (startswith (c # cs) sub \<or> str_in sub cs)"

text \<open>
  \<^verbatim>\<open>s.split(sep)\<close> for a separator of one character: the pieces between the separators, in
  order, untrimmed; the empty string gives one empty piece.
\<close>

fun str_split :: "char \<Rightarrow> string \<Rightarrow> string list" where
  "str_split sep [] = [[]]"
| "str_split sep (c # cs) =
     (if c = sep then [] # str_split sep cs
      else (case str_split sep cs of
              [] \<Rightarrow> [[c]]
            | p # ps \<Rightarrow> (c # p) # ps))"

text \<open>\<^verbatim>\<open>sep.join(pieces)\<close>, the inverse used to characterise the split.\<close>

fun str_join :: "char \<Rightarrow> string list \<Rightarrow> string" where
  "str_join sep [] = []"
| "str_join sep [p] = p"
| "str_join sep (p # q # ps) = p @ sep # str_join sep (q # ps)"

text \<open>
  Truthiness of an \<^verbatim>\<open>Optional[str]\<close>: \<^verbatim>\<open>None\<close> and the empty string are false. \<^verbatim>\<open>v or d\<close>
  is \<^verbatim>\<open>v\<close> when \<^verbatim>\<open>v\<close> is true and \<^verbatim>\<open>d\<close> otherwise.
\<close>

definition truthy :: "string option \<Rightarrow> bool" where
  "truthy v = (case v of None \<Rightarrow> False | Some s \<Rightarrow> s \<noteq> [])"

definition or_else :: "string option \<Rightarrow> string \<Rightarrow> string" where
  "or_else v d = (case v of None \<Rightarrow> d | Some s \<Rightarrow> if s \<noteq> [] then s else d)"

text \<open>An optional string and an optional list of strings as dictionary values.\<close>

definition json_of_str :: "string option \<Rightarrow> json" where
  "json_of_str v = (case v of None \<Rightarrow> JNull | Some s \<Rightarrow> JString s)"

definition json_of_strs :: "string list option \<Rightarrow> json" where
  "json_of_strs v = (case v of None \<Rightarrow> JNull | Some xs \<Rightarrow> JArray (map JString xs))"

section \<open>The handlers\<close>

text \<open>The request body of \<^verbatim>\<open>POST /portfolio\<close>: class \<^verbatim>\<open>Portfolio\<close>, every field optional.\<close>

record Portfolio =
  name :: "string option"
  school :: "string option"
  major :: "string option"
  minor :: "string option"
  hobbies :: "string list option"
  linkedin :: "string option"
  github :: "string option"

text \<open>\<^verbatim>\<open>redirect_to_main_page\<close>, the handler of \<^verbatim>\<open>GET /\<close>.\<close>

definition redirect_to_main_page :: response where
  "redirect_to_main_page = RedirectResponse ''/portfolio'' 307"

text \<open>
  \<^verbatim>\<open>submit_details_get\<close>, the handler of \<^verbatim>\<open>GET /portfolio\<close>. Its parameters are the seven
  query parameters and the \<^verbatim>\<open>User-Agent\<close> header, each \<^verbatim>\<open>None\<close> when the request does not
  carry it. The \<^verbatim>\<open>request\<close> parameter of the source is read by the rate limiter only and
  is not a parameter here.
\<close>

definition submit_details_get ::
  "string option \<Rightarrow> string option \<Rightarrow> string option \<Rightarrow> string option \<Rightarrow> string option \<Rightarrow>
   string option \<Rightarrow> string option \<Rightarrow> string option \<Rightarrow> http_exception + response" where
  "submit_details_get q_name q_school q_major q_minor q_hobbies q_linkedin q_github user_agent =
     (if (case user_agent of None \<Rightarrow> False | Some ua \<Rightarrow> ua \<noteq> [] \<and> str_in ''bot'' (lower ua))
      then Inl (HTTPException 403 ''Bots are not allowed'')
      else
        let hobbies_list =
              (case q_hobbies of
                 None \<Rightarrow> []
               | Some h \<Rightarrow> if h \<noteq> [] then str_split CHR '','' h else []);
            response =
              JSONResponse 200
                (JObject
                  [(''message'', JString ''GET request received successfully!''),
                   (''data'',
                    JObject
                      [(''name'', JString (or_else q_name ''Anonymous'')),
                       (''school'', JString (or_else q_school ''Not Specified'')),
                       (''major'', JString (or_else q_major ''Not Specified'')),
                       (''minor'', JString (or_else q_minor ''Not Specified'')),
                       (''hobbies'', JArray (map JString hobbies_list)),
                       (''linkedin'', JString (or_else q_linkedin ''Not Provided'')),
                       (''github'', JString (or_else q_github ''Not Provided''))])])
        in Inr (set_header response ''X-Robots-Tag'' ''noindex, nofollow''))"

text \<open>\<^verbatim>\<open>submit_details\<close>, the handler of \<^verbatim>\<open>POST /portfolio\<close>; it returns a dictionary.\<close>

definition submit_details :: "Portfolio \<Rightarrow> http_exception + json" where
  "submit_details details =
     (if \<not> truthy (name details) \<or> \<not> truthy (school details) \<or> \<not> truthy (major details)
      then Inl (HTTPException 400 ''Name, school, and major are required fields.'')
      else Inr
        (JObject
          [(''message'', JString ''Details received successfully!''),
           (''data'',
            JObject
              [(''name'', json_of_str (name details)),
               (''school'', json_of_str (school details)),
               (''major'', json_of_str (major details)),
               (''minor'', json_of_str (minor details)),
               (''hobbies'', json_of_strs (hobbies details)),
               (''linkedin'', json_of_str (linkedin details)),
               (''github'', json_of_str (github details))])]))"

text \<open>\<^verbatim>\<open>submit_details_v1\<close> and \<^verbatim>\<open>submit_details_v2\<close>: no parameters, a constant dictionary.\<close>

definition submit_details_v1 :: json where
  "submit_details_v1 = JObject [(''message'', JString ''API Version 1'')]"

definition submit_details_v2 :: json where
  "submit_details_v2 = JObject [(''message'', JString ''API Version 2 with improved features!'')]"

text \<open>
  \<^verbatim>\<open>rate_limit_exceeded_handler\<close>: the response for a \<^verbatim>\<open>RateLimitExceeded\<close>; it reads neither
  the request nor the exception.
\<close>

definition rate_limit_exceeded_handler :: response where
  "rate_limit_exceeded_handler =
     JSONResponse 429 (JObject [(''message'', JString ''Rate limit exceeded. Please try again later.'')])"

section \<open>Routes\<close>

text \<open>
  What the framework does around a handler: a returned dictionary is sent as a JSON
  response with status 200, a returned response is sent as it is, and a raised
  \<^verbatim>\<open>HTTPException\<close> is sent with its status and the body \<^verbatim>\<open>{"detail": detail}\<close>.
\<close>

definition http_exception_handler :: "http_exception \<Rightarrow> response" where
  "http_exception_handler exc =
     (case exc of HTTPException code detail \<Rightarrow> JSONResponse code (JObject [(''detail'', JString detail)]))"

definition send_dict :: "http_exception + json \<Rightarrow> response" where
  "send_dict res = (case res of Inl exc \<Rightarrow> http_exception_handler exc | Inr d \<Rightarrow> JSONResponse 200 d)"

definition send_response :: "http_exception + response \<Rightarrow> response" where
  "send_response res = (case res of Inl exc \<Rightarrow> http_exception_handler exc | Inr r \<Rightarrow> r)"

text \<open>
  A request as it arrives: the client address, the query parameters, the headers and the
  body. The routes \<^verbatim>\<open>/\<close>, \<^verbatim>\<open>/v1/portfolio\<close> and \<^verbatim>\<open>/v2/portfolio\<close> call handlers without
  parameters, so nothing of the request reaches them.
\<close>

record http_request =
  client :: string
  query_params :: "(string \<times> string) list"
  request_headers :: "(string \<times> string) list"
  request_body :: string

definition get_root :: "http_request \<Rightarrow> response" where
  "get_root request = redirect_to_main_page"

definition get_v1_portfolio :: "http_request \<Rightarrow> response" where
  "get_v1_portfolio request = send_dict (Inr submit_details_v1)"

definition get_v2_portfolio :: "http_request \<Rightarrow> response" where
  "get_v2_portfolio request = send_dict (Inr submit_details_v2)"

section \<open>The rate limiter and the limited routes\<close>

text \<open>
  Modelled from the spec: the rate limiter. The source only configures it
  (\<^verbatim>\<open>Limiter(key_func=get_remote_address)\<close>, \<^verbatim>\<open>@limiter.limit("5/minute")\<close>); the limiter
  itself is the \<^verbatim>\<open>slowapi\<close> library and is not among the sources. The specification asks for
  per-client counters, keyed by client address, updated by increment-and-check, with a
  sliding or fixed one-minute window and an explicit expiry; the fixed window, opened by a
  client's first request and closed 60 seconds later, is the one modelled. The state maps a client address to the
  expiry of its window and the number of requests counted in it; time is the timestamp
  (in seconds) at which a request is handled.
\<close>

type_synonym limiter_state = "string \<Rightarrow> (real \<times> nat) option"

definition hit :: "nat \<Rightarrow> real \<Rightarrow> limiter_state \<Rightarrow> real \<Rightarrow> string \<Rightarrow> bool \<times> limiter_state" where
  "hit amount period st now key =
     (let live = (case st key of
                    None \<Rightarrow> None
                  | Some (expiry, n) \<Rightarrow> if now < expiry then Some (expiry, n) else None);
          entry = (case live of
                     None \<Rightarrow> (now + period, Suc 0)
                   | Some (expiry, n) \<Rightarrow> (expiry, Suc n))
      in (snd entry \<le> amount, st(key \<mapsto> entry)))"

text \<open>
  A \<^verbatim>\<open>GET /portfolio\<close> request after parameter binding: the client address (the limiter's
  key), the query parameters and the \<^verbatim>\<open>User-Agent\<close> header.
\<close>

record portfolio_request =
  client_host :: string
  query_name :: "string option"
  query_school :: "string option"
  query_major :: "string option"
  query_minor :: "string option"
  query_hobbies :: "string option"
  query_linkedin :: "string option"
  query_github :: "string option"
  header_user_agent :: "string option"

text \<open>
  The decorated route: the limiter is asked first (5 per 60 seconds); a refusal raises
  \<^verbatim>\<open>RateLimitExceeded\<close>, answered by \<^verbatim>\<open>rate_limit_exceeded_handler\<close>; otherwise the handler
  runs.
\<close>

definition get_portfolio :: "limiter_state \<Rightarrow> real \<Rightarrow> portfolio_request \<Rightarrow> response \<times> limiter_state" where
  "get_portfolio st now req =
     (case hit 5 60 st now (client_host req) of
        (allowed, st') \<Rightarrow>
          (if allowed
           then send_response
                  (submit_details_get (query_name req) (query_school req) (query_major req)
                     (query_minor req) (query_hobbies req) (query_linkedin req)
                     (query_github req) (header_user_agent req))
           else rate_limit_exceeded_handler,
           st'))"

text \<open>
  \<^verbatim>\<open>POST /portfolio\<close> once the body has been parsed into a \<^verbatim>\<open>Portfolio\<close>. The route is
  decorated with \<^verbatim>\<open>@limiter.limit("10/minute")\<close>: the limiter (defined below, with its own
  counters for this route) is asked first with the client address, a refusal is answered by
  \<^verbatim>\<open>rate_limit_exceeded_handler\<close>, and otherwise the handler runs.
\<close>

definition post_portfolio ::
  "limiter_state \<Rightarrow> real \<Rightarrow> string \<Rightarrow> Portfolio \<Rightarrow> response \<times> limiter_state" where
  "post_portfolio st now client_addr details =
     (case hit 10 60 st now client_addr of
        (allowed, st') \<Rightarrow>
          (if allowed then send_dict (submit_details details) else rate_limit_exceeded_handler,
           st'))"

text \<open>A sequence of timestamped requests served one after the other.\<close>

fun serve :: "limiter_state \<Rightarrow> (real \<times> portfolio_request) list \<Rightarrow> response list" where
  "serve st [] = []"
| "serve st (tr # rest) =
     (case get_portfolio st (fst tr) (snd tr) of (r, st') \<Rightarrow> r # serve st' rest)"

section \<open>What the claims speak of\<close>

text \<open>
  A User-Agent value contains \<^verbatim>\<open>bot\<close> case-insensitively: three consecutive characters
  that are \<^verbatim>\<open>b\<close> or \<^verbatim>\<open>B\<close>, \<^verbatim>\<open>o\<close> or \<^verbatim>\<open>O\<close>, \<^verbatim>\<open>t\<close> or \<^verbatim>\<open>T\<close>.
\<close>

definition contains_bot_ignoring_case :: "string \<Rightarrow> bool" where
  "contains_bot_ignoring_case s =
     (\<exists>ps a b c ss. s = ps @ [a, b, c] @ ss \<and>
        a \<in> {CHR ''b'', CHR ''B''} \<and> b \<in> {CHR ''o'', CHR ''O''} \<and> c \<in> {CHR ''t'', CHR ''T''})"

text \<open>
  The number of requests the limiter has counted for a client, and the states in which no
  window ends before a given time.
\<close>

definition counted :: "limiter_state \<Rightarrow> string \<Rightarrow> nat" where
  "counted st key = (case st key of None \<Rightarrow> 0 | Some (expiry, n) \<Rightarrow> n)"

definition unexpired :: "real \<Rightarrow> limiter_state \<Rightarrow> bool" where
  "unexpired t st = (\<forall>key expiry n. st key = Some (expiry, n) \<longrightarrow> t \<le> expiry)"

text \<open>
  Among the first \<open>k + 1\<close> requests of a sequence, those from the client of request \<open>k\<close>
  (positions count from 0).
\<close>

definition requests_so_far :: "(real \<times> portfolio_request) list \<Rightarrow> nat \<Rightarrow> nat" where
  "requests_so_far reqs k =
     length (filter (\<lambda>tr. client_host (snd tr) = client_host (snd (reqs ! k))) (take (Suc k) reqs))"

text \<open>
  The requests of a client at or after a time among those already served, and the states
  that account for them: at time \<open>t\<close> every window ends within the next 60 seconds and
  counts no more requests than the client has made since the window began.
\<close>

definition from_since :: "string \<Rightarrow> real \<Rightarrow> (real \<times> portfolio_request) list \<Rightarrow> nat" where
  "from_since key t past = length (filter (\<lambda>tr. client_host (snd tr) = key \<and> t \<le> fst tr) past)"

definition accounted :: "real \<Rightarrow> (real \<times> portfolio_request) list \<Rightarrow> limiter_state \<Rightarrow> bool" where
  "accounted t past st =
     (\<forall>key expiry n. st key = Some (expiry, n) \<longrightarrow>
        expiry \<le> t + 60 \<and> n \<le> from_since key (expiry - 60) past)"

text \<open>
  The fixed window, told from the requests alone. Going through the requests already served
  in order, the window of a client address opens at its first request and at each of its
  requests that comes 60 seconds or more after the window then open began;
  \<open>window_start\<close> is when the latest one opened. A new request is over the limit when it
  comes less than 60 seconds after that and 5 or more requests of its address have come
  since the window opened.
\<close>

definition window_step :: "string \<Rightarrow> real option \<Rightarrow> real \<times> portfolio_request \<Rightarrow> real option" where
  "window_step key w tr =
     (if client_host (snd tr) = key
      then (case w of
              None \<Rightarrow> Some (fst tr)
            | Some s \<Rightarrow> if fst tr < s + 60 then Some s else Some (fst tr))
      else w)"

definition window_start :: "string \<Rightarrow> (real \<times> portfolio_request) list \<Rightarrow> real option" where
  "window_start key past = foldl (window_step key) None past"

definition over_limit :: "(real \<times> portfolio_request) list \<Rightarrow> real \<times> portfolio_request \<Rightarrow> bool" where
  "over_limit past tr =
     (case window_start (client_host (snd tr)) past of
        None \<Rightarrow> False
      | Some s \<Rightarrow> fst tr < s + 60 \<and> 5 \<le> from_since (client_host (snd tr)) s past)"

text \<open>The limiter states that hold, for every address, just that window and that count.\<close>

definition tracked :: "(real \<times> portfolio_request) list \<Rightarrow> limiter_state \<Rightarrow> bool" where
  "tracked past st =
     (\<forall>key. st key = (case window_start key past of
                        None \<Rightarrow> None
                      | Some s \<Rightarrow> Some (s + 60, from_since key s past)))"

text \<open>A request from an address with no query parameter and no \<^verbatim>\<open>User-Agent\<close>.\<close>

definition plain_request :: "string \<Rightarrow> portfolio_request" where
  "plain_request addr = \<lparr>client_host = addr, query_name = None, query_school = None,
     query_major = None, query_minor = None, query_hobbies = None, query_linkedin = None,
     query_github = None, header_user_agent = None\<rparr>"

section \<open>Properties of the string operations\<close>

lemma of_char_lower_char:
  "(of_char (lower_char c) :: nat) =
     (if (65 \<le> (of_char c :: nat) \<and> (of_char c :: nat) \<le> 90) \<or>
         (192 \<le> (of_char c :: nat) \<and> (of_char c :: nat) \<le> 222 \<and> (of_char c :: nat) \<noteq> 215)
      then of_char c + 32 else of_char c)"
  by (auto simp: lower_char_def Let_def)

lemma char_eq_code: "c = d \<longleftrightarrow> (of_char c :: nat) = of_char d"
  by (simp add: of_char_eq_iff)

lemma lower_char_b: "lower_char c = CHR ''b'' \<longleftrightarrow> c = CHR ''b'' \<or> c = CHR ''B''"
  unfolding char_eq_code [of _ "CHR ''b''"] char_eq_code [of _ "CHR ''B''"] of_char_lower_char
  by (simp; arith)

lemma lower_char_o: "lower_char c = CHR ''o'' \<longleftrightarrow> c = CHR ''o'' \<or> c = CHR ''O''"
  unfolding char_eq_code [of _ "CHR ''o''"] char_eq_code [of _ "CHR ''O''"] of_char_lower_char
  by (simp; arith)

lemma lower_char_t: "lower_char c = CHR ''t'' \<longleftrightarrow> c = CHR ''t'' \<or> c = CHR ''T''"
  unfolding char_eq_code [of _ "CHR ''t''"] char_eq_code [of _ "CHR ''T''"] of_char_lower_char
  by (simp; arith)

lemma startswith_iff: "startswith s p \<longleftrightarrow> (\<exists>ss. s = p @ ss)"
  by (induction s p rule: startswith.induct) auto

lemma str_in_iff: "str_in sub s \<longleftrightarrow> (\<exists>ps ss. s = ps @ sub @ ss)"
proof (induction s)
  case Nil
  then show ?case by auto
next
  case (Cons c cs)
  have "(\<exists>ps ss. c # cs = ps @ sub @ ss) \<longleftrightarrow>
        (\<exists>ss. c # cs = sub @ ss) \<or> (\<exists>ps ss. cs = ps @ sub @ ss)"
  proof
    assume "\<exists>ps ss. c # cs = ps @ sub @ ss"
    then obtain ps ss where eq: "c # cs = ps @ sub @ ss" by blast
    show "(\<exists>ss. c # cs = sub @ ss) \<or> (\<exists>ps ss. cs = ps @ sub @ ss)"
    proof (cases ps)
      case Nil
      with eq show ?thesis by auto
    next
      case (Cons q qs)
      with eq have "cs = qs @ sub @ ss" by simp
      then show ?thesis by blast
    qed
  next
    assume "(\<exists>ss. c # cs = sub @ ss) \<or> (\<exists>ps ss. cs = ps @ sub @ ss)"
    then show "\<exists>ps ss. c # cs = ps @ sub @ ss"
    proof
      assume "\<exists>ss. c # cs = sub @ ss"
      then obtain ss where "c # cs = [] @ sub @ ss" by auto
      then show ?thesis by blast
    next
      assume "\<exists>ps ss. cs = ps @ sub @ ss"
      then obtain ps ss where "c # cs = (c # ps) @ sub @ ss" by auto
      then show ?thesis by blast
    qed
  qed
  then show ?case by (simp add: Cons startswith_iff)
qed

lemma str_split_nonempty: "str_split sep s \<noteq> []"
  by (induction s) (auto split: list.splits)

lemma str_join_split: "str_join sep (str_split sep s) = s"
proof (induction s)
  case Nil
  show ?case by simp
next
  case (Cons c cs)
  obtain p ps where sp: "str_split sep cs = p # ps"
    using str_split_nonempty [of sep cs] by (cases "str_split sep cs") auto
  with Cons show ?case by (cases ps) auto
qed

lemma str_split_no_sep: "p \<in> set (str_split sep s) \<Longrightarrow> sep \<notin> set p"
  by (induction s arbitrary: p) (auto split: if_splits list.splits)

lemma str_split_length: "length (str_split sep s) = Suc (length (filter (\<lambda>c. c = sep) s))"
  by (induction s) (auto split: list.splits)

lemma contains_bot_iff: "contains_bot_ignoring_case s \<longleftrightarrow> str_in ''bot'' (lower s)"
proof
  assume "contains_bot_ignoring_case s"
  then obtain ps a b c ss where s: "s = ps @ [a, b, c] @ ss"
    and abc: "lower_char a = CHR ''b''" "lower_char b = CHR ''o''" "lower_char c = CHR ''t''"
    unfolding contains_bot_ignoring_case_def lower_char_b lower_char_o lower_char_t by blast
  have "lower s = lower ps @ ''bot'' @ lower ss"
    by (simp add: s lower_def abc)
  then show "str_in ''bot'' (lower s)"
    unfolding str_in_iff by blast
next
  assume "str_in ''bot'' (lower s)"
  then obtain ps ss where eq: "map lower_char s = ps @ ''bot'' @ ss"
    unfolding str_in_iff lower_def by blast
  then obtain xs ys where s1: "s = xs @ ys" and "map lower_char xs = ps"
    and ys: "map lower_char ys = ''bot'' @ ss"
    by (auto simp: map_eq_append_conv)
  from ys obtain a b c zs where ys': "ys = a # b # c # zs"
    and abc: "lower_char a = CHR ''b''" "lower_char b = CHR ''o''" "lower_char c = CHR ''t''"
    by (auto simp: map_eq_Cons_conv)
  have "s = xs @ [a, b, c] @ zs" by (simp add: s1 ys')
  with abc show "contains_bot_ignoring_case s"
    unfolding contains_bot_ignoring_case_def lower_char_b lower_char_o lower_char_t by blast
qed

section \<open>Properties of the handlers\<close>

lemma submit_details_get_Inr:
  assumes "submit_details_get n s mj mi hob l g ua = Inr r"
  shows "r = \<lparr>status_code = 200, headers = [(''X-Robots-Tag'', ''noindex, nofollow'')],
    body = Some (JObject
       [(''message'', JString ''GET request received successfully!''),
        (''data'', JObject
           [(''name'', JString (or_else n ''Anonymous'')),
            (''school'', JString (or_else s ''Not Specified'')),
            (''major'', JString (or_else mj ''Not Specified'')),
            (''minor'', JString (or_else mi ''Not Specified'')),
            (''hobbies'', JArray (map JString
               (case hob of None \<Rightarrow> [] | Some h \<Rightarrow> if h \<noteq> [] then str_split CHR '','' h else []))),
            (''linkedin'', JString (or_else l ''Not Provided'')),
            (''github'', JString (or_else g ''Not Provided''))])])\<rparr>"
  using assms
  by (simp add: submit_details_get_def Let_def JSONResponse_def set_header_def split: if_splits)

lemma submit_details_get_status:
  "status_code (send_response (submit_details_get n s mj mi hob l g ua)) \<noteq> 429"
  by (simp add: submit_details_get_def Let_def send_response_def http_exception_handler_def
      JSONResponse_def set_header_def)

lemma rate_limit_exceeded_status: "status_code rate_limit_exceeded_handler = 429"
  by (simp add: rate_limit_exceeded_handler_def JSONResponse_def)

lemma submit_details_get_not_limited:
  "send_response (submit_details_get n s mj mi hob l g ua) \<noteq> rate_limit_exceeded_handler"
  using submit_details_get_status [of n s mj mi hob l g ua] rate_limit_exceeded_status
  by auto

section \<open>Properties of the rate limiter\<close>

lemma unexpiredD: "unexpired t st \<Longrightarrow> st key = Some (expiry, n) \<Longrightarrow> t \<le> expiry"
  unfolding unexpired_def by blast

lemma hit_live:
  assumes "unexpired t st" and "now < t"
  shows "hit amount period st now key =
           (Suc (counted st key) \<le> amount,
            st(key \<mapsto> (case st key of None \<Rightarrow> now + period | Some (expiry, n) \<Rightarrow> expiry,
                         Suc (counted st key))))"
proof (cases "st key")
  case None
  then show ?thesis by (simp add: hit_def counted_def)
next
  case (Some en)
  obtain expiry n where en: "en = (expiry, n)" by (cases en)
  from unexpiredD [OF assms(1)] Some en have "t \<le> expiry" by simp
  with assms(2) have "now < expiry" by simp
  with Some en show ?thesis by (simp add: hit_def counted_def)
qed

lemma hit_allowed:
  assumes "unexpired t st" and "now < t"
  shows "fst (hit amount period st now key) = (Suc (counted st key) \<le> amount)"
  by (simp add: hit_live [OF assms])

lemma hit_counted:
  assumes "unexpired t st" and "now < t"
  shows "counted (snd (hit amount period st now key)) key' =
           counted st key' + (if key' = key then 1 else 0)"
  by (simp add: hit_live [OF assms] counted_def)

lemma hit_unexpired:
  assumes "unexpired t st" and "now < t" and "t \<le> now + period"
  shows "unexpired t (snd (hit amount period st now key))"
  unfolding hit_live [OF assms(1,2)] unexpired_def
  using unexpiredD [OF assms(1)] assms(3)
  by (auto split: option.splits if_splits)

lemma get_portfolio_429:
  assumes "unexpired t st" and "now < t"
  shows "(fst (get_portfolio st now req) = rate_limit_exceeded_handler)
           = (5 < Suc (counted st (client_host req)))"
    and "(status_code (fst (get_portfolio st now req)) = 429)
           = (5 < Suc (counted st (client_host req)))"
  using submit_details_get_not_limited submit_details_get_status rate_limit_exceeded_status
  by (auto simp: get_portfolio_def hit_live [OF assms])

lemma get_portfolio_state:
  "snd (get_portfolio st now req) = snd (hit 5 60 st now (client_host req))"
  by (simp add: get_portfolio_def split: prod.splits)

lemma serve_nth:
  assumes "unexpired (t0 + 60) st"
    and "\<forall>tr \<in> set reqs. t0 \<le> fst tr \<and> fst tr < t0 + 60"
    and "k < length reqs"
  shows "((serve st reqs ! k = rate_limit_exceeded_handler)
           = (5 < counted st (client_host (snd (reqs ! k))) + requests_so_far reqs k))
       \<and> ((status_code (serve st reqs ! k) = 429)
           = (5 < counted st (client_host (snd (reqs ! k))) + requests_so_far reqs k))"
  using assms
proof (induction reqs arbitrary: st k)
  case Nil
  then show ?case by simp
next
  case (Cons tr rest)
  from Cons.prems have now: "t0 \<le> fst tr" "fst tr < t0 + 60" by auto
  obtain r st' where g: "get_portfolio st (fst tr) (snd tr) = (r, st')"
    by (cases "get_portfolio st (fst tr) (snd tr)")
  have st': "st' = snd (hit 5 60 st (fst tr) (client_host (snd tr)))"
    using get_portfolio_state [of st "fst tr" "snd tr"] g by simp
  show ?case
  proof (cases k)
    case 0
    with g get_portfolio_429 [OF Cons.prems(1) now(2), of "snd tr"]
    show ?thesis by (simp add: requests_so_far_def)
  next
    case (Suc j)
    have inv: "unexpired (t0 + 60) st'"
      unfolding st' using Cons.prems(1) now by (intro hit_unexpired) auto
    have j: "j < length rest" using Cons.prems(3) Suc by simp
    have rest: "\<forall>tr \<in> set rest. t0 \<le> fst tr \<and> fst tr < t0 + 60"
      using Cons.prems(2) by simp
    have cnt: "counted st' key = counted st key + (if key = client_host (snd tr) then 1 else 0)" for key
      unfolding st' by (rule hit_counted [OF Cons.prems(1) now(2)])
    have so_far: "requests_so_far (tr # rest) (Suc j) =
        (if client_host (snd tr) = client_host (snd (rest ! j)) then 1 else 0) + requests_so_far rest j"
      by (simp add: requests_so_far_def)
    from Cons.IH [OF inv rest j] show ?thesis
      by (auto simp: Suc g cnt so_far)
  qed
qed

lemma unexpired_empty: "unexpired t Map.empty"
  by (simp add: unexpired_def)

lemma accountedD:
  "accounted t past st \<Longrightarrow> st key = Some (expiry, n) \<Longrightarrow>
     expiry \<le> t + 60 \<and> n \<le> from_since key (expiry - 60) past"
  unfolding accounted_def by blast

lemma from_since_snoc:
  "from_since key t (past @ [tr]) =
     from_since key t past + (if client_host (snd tr) = key \<and> t \<le> fst tr then 1 else 0)"
  by (simp add: from_since_def)

lemma length_filter_mono:
  "(\<And>x. x \<in> set xs \<Longrightarrow> P x \<Longrightarrow> Q x) \<Longrightarrow> length (filter P xs) \<le> length (filter Q xs)"
  by (induction xs) auto

lemma hit_accounted:
  assumes inv: "accounted t past st" and now: "t \<le> fst tr"
  shows "accounted (fst tr) (past @ [tr]) (snd (hit 5 60 st (fst tr) (client_host (snd tr))))"
  unfolding accounted_def
proof (intro allI impI)
  fix key expiry n
  let ?st' = "snd (hit 5 60 st (fst tr) (client_host (snd tr)))"
  assume e: "?st' key = Some (expiry, n)"
  show "expiry \<le> fst tr + 60 \<and> n \<le> from_since key (expiry - 60) (past @ [tr])"
  proof (cases "key = client_host (snd tr)")
    case False
    with e have "st key = Some (expiry, n)" by (simp add: hit_def Let_def)
    from accountedD [OF inv this] now show ?thesis by (simp add: from_since_snoc)
  next
    case True
    show ?thesis
    proof (cases "st key")
      case None
      with e True have "expiry = fst tr + 60" "n = 1" by (auto simp: hit_def Let_def)
      with True show ?thesis by (simp add: from_since_snoc)
    next
      case (Some en)
      obtain e0 n0 where en: "en = (e0, n0)" by (cases en)
      show ?thesis
      proof (cases "fst tr < e0")
        case live: True
        with e True Some en have "expiry = e0" "n = Suc n0" by (auto simp: hit_def Let_def)
        moreover from accountedD [OF inv] Some en
        have "e0 \<le> t + 60" "n0 \<le> from_since key (e0 - 60) past" by auto
        ultimately show ?thesis using True now by (simp add: from_since_snoc)
      next
        case False
        with e True Some en have "expiry = fst tr + 60" "n = 1" by (auto simp: hit_def Let_def)
        with True show ?thesis by (simp add: from_since_snoc)
      qed
    qed
  qed
qed

lemma refused_recent:
  assumes inv: "accounted t past st" and now: "t \<le> now"
    and refused: "\<not> fst (hit 5 60 st now key)"
  shows "5 \<le> length (filter (\<lambda>tr. client_host (snd tr) = key \<and> now - 60 < fst tr) past)"
proof (cases "st key")
  case None
  with refused show ?thesis by (simp add: hit_def Let_def)
next
  case (Some en)
  obtain e0 n0 where en: "en = (e0, n0)" by (cases en)
  show ?thesis
  proof (cases "now < e0")
    case False
    with refused Some en show ?thesis by (simp add: hit_def Let_def)
  next
    case True
    with refused Some en have n0: "5 \<le> n0" by (simp add: hit_def Let_def)
    from accountedD [OF inv] Some en have "n0 \<le> from_since key (e0 - 60) past" by auto
    also have "from_since key (e0 - 60) past
        \<le> length (filter (\<lambda>tr. client_host (snd tr) = key \<and> now - 60 < fst tr) past)"
      unfolding from_since_def using True by (intro length_filter_mono) auto
    finally show ?thesis using n0 by simp
  qed
qed

lemma get_portfolio_refused:
  "status_code (fst (get_portfolio st now req)) = 429 \<Longrightarrow> \<not> fst (hit 5 60 st now (client_host req))"
  using submit_details_get_status
  by (auto simp: get_portfolio_def split: prod.splits if_splits)

lemma serve_refused_recent:
  assumes "accounted t past st"
    and "sorted (map fst reqs)"
    and "\<forall>tr \<in> set reqs. t \<le> fst tr"
    and "k < length reqs"
    and "status_code (serve st reqs ! k) = 429"
  shows "5 < length (filter (\<lambda>tr. client_host (snd tr) = client_host (snd (reqs ! k))
                               \<and> fst (reqs ! k) - 60 < fst tr) (past @ take (Suc k) reqs))"
  using assms
proof (induction reqs arbitrary: st past t k)
  case Nil
  then show ?case by simp
next
  case (Cons tr rest)
  from Cons.prems have now: "t \<le> fst tr" by simp
  obtain r st' where g: "get_portfolio st (fst tr) (snd tr) = (r, st')"
    by (cases "get_portfolio st (fst tr) (snd tr)")
  have st': "st' = snd (hit 5 60 st (fst tr) (client_host (snd tr)))"
    using get_portfolio_state [of st "fst tr" "snd tr"] g by simp
  show ?case
  proof (cases k)
    case 0
    with Cons.prems(5) g have "status_code (fst (get_portfolio st (fst tr) (snd tr))) = 429"
      by simp
    from refused_recent [OF Cons.prems(1) now get_portfolio_refused [OF this]] 0
    show ?thesis by simp
  next
    case (Suc j)
    have inv: "accounted (fst tr) (past @ [tr]) st'"
      unfolding st' by (rule hit_accounted [OF Cons.prems(1) now])
    have j: "j < length rest" using Cons.prems(4) Suc by simp
    have srt: "sorted (map fst rest)" using Cons.prems(2) by simp
    have later: "\<forall>x \<in> set rest. fst tr \<le> fst x" using Cons.prems(2) by simp
    have st429: "status_code (serve st' rest ! j) = 429" using Cons.prems(5) Suc g by simp
    from Cons.IH [OF inv srt later j st429] show ?thesis
      by (simp add: Suc)
  qed
qed

lemma accounted_empty: "accounted t [] Map.empty"
  by (simp add: accounted_def)

lemma serve_fresh_refused_recent:
  assumes "sorted (map fst reqs)" and "k < length reqs"
    and "status_code (serve Map.empty reqs ! k) = 429"
  shows "5 < length (filter (\<lambda>tr. client_host (snd tr) = client_host (snd (reqs ! k))
                               \<and> fst (reqs ! k) - 60 < fst tr) (take (Suc k) reqs))"
proof (cases reqs)
  case Nil
  with assms show ?thesis by simp
next
  case (Cons tr rest)
  have "\<forall>x \<in> set reqs. fst tr \<le> fst x" using assms(1) Cons by auto
  from serve_refused_recent [OF accounted_empty assms(1) this assms(2,3)]
  show ?thesis by simp
qed

lemma window_start_Nil: "window_start key [] = None"
  by (simp add: window_start_def)

lemma window_start_snoc:
  "window_start key (past @ [tr]) = window_step key (window_start key past) tr"
  by (simp add: window_start_def)

lemma window_start_None:
  "window_start key past = None \<Longrightarrow> from_since key t past = 0"
proof (induction past rule: rev_induct)
  case Nil
  show ?case by (simp add: from_since_def)
next
  case (snoc tr past)
  from snoc.prems have "client_host (snd tr) \<noteq> key \<and> window_start key past = None"
    by (auto simp: window_start_snoc window_step_def split: if_splits option.splits)
  with snoc.IH show ?case by (simp add: from_since_snoc)
qed

lemma window_start_Some:
  assumes "sorted (map fst past)" and "window_start key past = Some s"
  shows "(\<exists>tr \<in> set past. fst tr = s) \<and> (\<forall>tr \<in> set past. client_host (snd tr) = key \<longrightarrow> fst tr < s + 60)"
  using assms
proof (induction past arbitrary: s rule: rev_induct)
  case Nil
  then show ?case by (simp add: window_start_Nil)
next
  case (snoc tr past)
  from snoc.prems(1) have srt: "sorted (map fst past)" and le: "\<forall>y \<in> set past. fst y \<le> fst tr"
    by (auto simp: sorted_append)
  show ?case
  proof (cases "client_host (snd tr) = key")
    case False
    with snoc.prems(2) have "window_start key past = Some s"
      by (simp add: window_start_snoc window_step_def)
    from snoc.IH [OF srt this] False show ?thesis by auto
  next
    case True
    show ?thesis
    proof (cases "window_start key past")
      case None
      with True snoc.prems(2) have s: "s = fst tr"
        by (simp add: window_start_snoc window_step_def)
      from window_start_None [OF None, of "fst tr - 60"] le
      show ?thesis using s le by (auto simp: from_since_def filter_empty_conv intro: le_less_trans)
    next
      case (Some s0)
      show ?thesis
      proof (cases "fst tr < s0 + 60")
        case live: True
        with True Some snoc.prems(2) have "s = s0"
          by (simp add: window_start_snoc window_step_def)
        with snoc.IH [OF srt Some] live True show ?thesis by auto
      next
        case False
        with True Some snoc.prems(2) have s: "s = fst tr"
          by (simp add: window_start_snoc window_step_def)
        have "\<forall>y \<in> set past. fst y < fst tr + 60"
        proof
          fix y assume "y \<in> set past"
          with le have "fst y \<le> fst tr" by blast
          then show "fst y < fst tr + 60" by simp
        qed
        with s show ?thesis by auto
      qed
    qed
  qed
qed

lemma hit_tracked:
  assumes tr: "tracked past st" and srt: "sorted (map fst (past @ [tr]))"
  shows "fst (hit 5 60 st (fst tr) (client_host (snd tr))) = (\<not> over_limit past tr)"
    and "tracked (past @ [tr]) (snd (hit 5 60 st (fst tr) (client_host (snd tr))))"
proof -
  let ?c = "client_host (snd tr)" and ?t = "fst tr"
  from srt have past: "sorted (map fst past)" and le: "\<forall>y \<in> set past. fst y \<le> ?t"
    by (auto simp: sorted_append)
  from tr have st: "st key = (case window_start key past of
                        None \<Rightarrow> None
                      | Some s \<Rightarrow> Some (s + 60, from_since key s past))" for key
    unfolding tracked_def by blast
  have other: "snd (hit 5 60 st ?t ?c) key =
        (case window_start key (past @ [tr]) of
           None \<Rightarrow> None
         | Some s \<Rightarrow> Some (s + 60, from_since key s (past @ [tr])))"
    if "key \<noteq> ?c" for key
    using that st [of key]
    by (cases "window_start key past")
       (simp_all add: hit_def Let_def window_start_snoc window_step_def from_since_snoc)
  show "fst (hit 5 60 st ?t ?c) = (\<not> over_limit past tr)"
    and "tracked (past @ [tr]) (snd (hit 5 60 st ?t ?c))"
  proof -
    consider (fresh) "window_start ?c past = None"
      | (live) s where "window_start ?c past = Some s" "?t < s + 60"
      | (expired) s where "window_start ?c past = Some s" "\<not> ?t < s + 60"
      by (cases "window_start ?c past") auto
    then have main: "fst (hit 5 60 st ?t ?c) = (\<not> over_limit past tr)
        \<and> snd (hit 5 60 st ?t ?c) ?c =
            (case window_start ?c (past @ [tr]) of
               None \<Rightarrow> None
             | Some s \<Rightarrow> Some (s + 60, from_since ?c s (past @ [tr])))"
    proof cases
      case fresh
      from window_start_None [OF fresh, of ?t] fresh st [of ?c]
      show ?thesis
        by (simp add: hit_def Let_def over_limit_def window_start_snoc window_step_def from_since_snoc)
    next
      case (live s)
      from window_start_Some [OF past live(1)] le have "s \<le> ?t" by auto
      with live st [of ?c] show ?thesis
        by (auto simp: hit_def Let_def over_limit_def window_start_snoc window_step_def from_since_snoc)
    next
      case (expired s)
      from window_start_Some [OF past expired(1)] expired(2)
      have "\<forall>y \<in> set past. client_host (snd y) = ?c \<longrightarrow> \<not> ?t \<le> fst y" by auto
      then have "from_since ?c ?t past = 0"
        by (auto simp: from_since_def filter_empty_conv)
      with expired st [of ?c] show ?thesis
        by (simp add: hit_def Let_def over_limit_def window_start_snoc window_step_def from_since_snoc)
    qed
    from main show "fst (hit 5 60 st ?t ?c) = (\<not> over_limit past tr)"
      by (rule conjunct1)
    show "tracked (past @ [tr]) (snd (hit 5 60 st ?t ?c))"
      unfolding tracked_def
    proof
      fix key
      show "snd (hit 5 60 st ?t ?c) key =
        (case window_start key (past @ [tr]) of
           None \<Rightarrow> None
         | Some s \<Rightarrow> Some (s + 60, from_since key s (past @ [tr])))"
      proof (cases "key = ?c")
        case True
        from main [THEN conjunct2] show ?thesis unfolding True .
      next
        case False
        then show ?thesis by (rule other)
      qed
    qed
  qed
qed

lemma get_portfolio_limited:
  "(fst (get_portfolio st now req) = rate_limit_exceeded_handler)
     = (\<not> fst (hit 5 60 st now (client_host req)))"
  "(status_code (fst (get_portfolio st now req)) = 429)
     = (\<not> fst (hit 5 60 st now (client_host req)))"
  using submit_details_get_not_limited submit_details_get_status rate_limit_exceeded_status
  by (auto simp: get_portfolio_def split: prod.splits)

lemma serve_over_limit:
  assumes "tracked past st" and "sorted (map fst (past @ reqs))" and "k < length reqs"
  shows "((serve st reqs ! k = rate_limit_exceeded_handler) = over_limit (past @ take k reqs) (reqs ! k))
       \<and> ((status_code (serve st reqs ! k) = 429) = over_limit (past @ take k reqs) (reqs ! k))"
  using assms
proof (induction reqs arbitrary: st past k)
  case Nil
  then show ?case by simp
next
  case (Cons tr rest)
  from Cons.prems(2) have srt: "sorted (map fst (past @ [tr]))"
    by (auto simp: sorted_append)
  obtain r st' where g: "get_portfolio st (fst tr) (snd tr) = (r, st')"
    by (cases "get_portfolio st (fst tr) (snd tr)")
  have st': "st' = snd (hit 5 60 st (fst tr) (client_host (snd tr)))"
    using get_portfolio_state [of st "fst tr" "snd tr"] g by simp
  show ?case
  proof (cases k)
    case 0
    from get_portfolio_limited [of st "fst tr" "snd tr"] hit_tracked(1) [OF Cons.prems(1) srt] g 0
    show ?thesis by simp
  next
    case (Suc j)
    have inv: "tracked (past @ [tr]) st'"
      unfolding st' by (rule hit_tracked(2) [OF Cons.prems(1) srt])
    have j: "j < length rest" using Cons.prems(3) Suc by simp
    have srt': "sorted (map fst ((past @ [tr]) @ rest))" using Cons.prems(2) by simp
    from Cons.IH [OF inv srt' j] show ?thesis by (simp add: Suc g)
  qed
qed

lemma tracked_empty: "tracked [] Map.empty"
  by (simp add: tracked_def window_start_Nil)

lemma serve_fresh_over_limit:
  assumes "sorted (map fst reqs)" and "k < length reqs"
  shows "((serve Map.empty reqs ! k = rate_limit_exceeded_handler) = over_limit (take k reqs) (reqs ! k))
       \<and> ((status_code (serve Map.empty reqs ! k) = 429) = over_limit (take k reqs) (reqs ! k))"
  using serve_over_limit [OF tracked_empty, of reqs k] assms by simp

section \<open>The claims\<close>

text \<open>
  Claim C1. The handler of \<^verbatim>\<open>GET /portfolio\<close> raises the 403 error with the message
  \<^verbatim>\<open>Bots are not allowed\<close> exactly when the \<^verbatim>\<open>User-Agent\<close> header is present and contains
  \<^verbatim>\<open>bot\<close> in any mix of upper and lower case; when the header is absent or does not contain
  it, the handler raises nothing at all.
\<close>

theorem submit_details_get_bot_forbidden:
  "(submit_details_get n s mj mi h l g ua = Inl (HTTPException 403 ''Bots are not allowed''))
     = (\<exists>u. ua = Some u \<and> contains_bot_ignoring_case u)
   \<and> (\<exists>e. submit_details_get n s mj mi h l g ua = Inl e)
     = (\<exists>u. ua = Some u \<and> contains_bot_ignoring_case u)"
proof (cases ua)
  case None
  then show ?thesis by (simp add: submit_details_get_def Let_def)
next
  case (Some u)
  have "u = [] \<Longrightarrow> \<not> contains_bot_ignoring_case u"
    by (simp add: contains_bot_ignoring_case_def)
  with Some show ?thesis
    by (auto simp: submit_details_get_def Let_def contains_bot_iff)
qed

theorem submit_details_get_bot_forbidden_witness:
  "submit_details_get None None None None None None None (Some ''some-bot/1.0'')
     = Inl (HTTPException 403 ''Bots are not allowed'')
   \<and> contains_bot_ignoring_case ''Some-BoT/1.0''
   \<and> submit_details_get None None None None None None None (Some ''Some-BoT/1.0'')
     = Inl (HTTPException 403 ''Bots are not allowed'')
   \<and> (\<nexists>e. submit_details_get None None None None None None None None = Inl e)"
proof -
  have "''some-bot/1.0'' = ''some-'' @ [CHR ''b'', CHR ''o'', CHR ''t''] @ ''/1.0''" by simp
  then have c1: "contains_bot_ignoring_case ''some-bot/1.0''"
    unfolding contains_bot_ignoring_case_def by blast
  have "''Some-BoT/1.0'' = ''Some-'' @ [CHR ''B'', CHR ''o'', CHR ''T''] @ ''/1.0''" by simp
  then have c2: "contains_bot_ignoring_case ''Some-BoT/1.0''"
    unfolding contains_bot_ignoring_case_def by blast
  show ?thesis
    using c1 c2
      submit_details_get_bot_forbidden [of None None None None None None None "Some ''some-bot/1.0''"]
      submit_details_get_bot_forbidden [of None None None None None None None "Some ''Some-BoT/1.0''"]
      submit_details_get_bot_forbidden [of None None None None None None None None]
    by simp
qed

text \<open>
  Claim C2. The handler of \<^verbatim>\<open>POST /portfolio\<close> raises the 400 error with the message
  \<^verbatim>\<open>Name, school, and major are required fields.\<close> exactly when one of \<^verbatim>\<open>name\<close>,
  \<^verbatim>\<open>school\<close>, \<^verbatim>\<open>major\<close> is absent or the empty string, and raises nothing otherwise.
\<close>

theorem submit_details_required_fields:
  "(submit_details d = Inl (HTTPException 400 ''Name, school, and major are required fields.''))
     = (name d = None \<or> name d = Some [] \<or> school d = None \<or> school d = Some [] \<or>
        major d = None \<or> major d = Some [])
   \<and> (\<exists>e. submit_details d = Inl e)
     = (name d = None \<or> name d = Some [] \<or> school d = None \<or> school d = Some [] \<or>
        major d = None \<or> major d = Some [])"
  by (cases "name d"; cases "school d"; cases "major d")
     (simp_all add: submit_details_def truthy_def)

theorem submit_details_required_fields_witness:
  "submit_details \<lparr>name = Some ''Ada'', school = Some ''NYU'', major = None, minor = None,
       hobbies = None, linkedin = None, github = None\<rparr>
     = Inl (HTTPException 400 ''Name, school, and major are required fields.'')
   \<and> submit_details \<lparr>name = Some ''Ada'', school = Some '''', major = Some ''CS'', minor = None,
       hobbies = None, linkedin = None, github = None\<rparr>
     = Inl (HTTPException 400 ''Name, school, and major are required fields.'')
   \<and> (\<nexists>e. submit_details \<lparr>name = Some ''Ada'', school = Some ''NYU'', major = Some ''CS'',
       minor = None, hobbies = None, linkedin = None, github = None\<rparr> = Inl e)"
  using
    submit_details_required_fields [of "\<lparr>name = Some ''Ada'', school = Some ''NYU'', major = None,
       minor = None, hobbies = None, linkedin = None, github = None\<rparr>"]
    submit_details_required_fields [of "\<lparr>name = Some ''Ada'', school = Some '''', major = Some ''CS'',
       minor = None, hobbies = None, linkedin = None, github = None\<rparr>"]
    submit_details_required_fields [of "\<lparr>name = Some ''Ada'', school = Some ''NYU'', major = Some ''CS'',
       minor = None, hobbies = None, linkedin = None, github = None\<rparr>"]
  by simp

text \<open>
  Claim C3, amended. In a success response of \<^verbatim>\<open>GET /portfolio\<close>, \<^verbatim>\<open>data.hobbies\<close> is the
  empty sequence when the \<^verbatim>\<open>hobbies\<close> parameter is absent or the empty string, and
  otherwise the parameter split at its commas: the pieces in order, untrimmed, none holding
  a comma, and joined by commas giving the parameter back.
\<close>

theorem submit_details_get_hobbies:
  assumes "submit_details_get n s mj mi hob l g ua = Inr r"
  shows "data_field ''hobbies'' r = Some (JArray (map JString
           (case hob of None \<Rightarrow> [] | Some h \<Rightarrow> if h = [] then [] else str_split CHR '','' h)))
       \<and> (\<forall>h. hob = Some h \<and> h \<noteq> [] \<longrightarrow>
            (\<exists>pieces. data_field ''hobbies'' r = Some (JArray (map JString pieces))
               \<and> str_join CHR '','' pieces = h \<and> (\<forall>p \<in> set pieces. CHR '','' \<notin> set p)))"
proof -
  note r = submit_details_get_Inr [OF assms]
  have 1: "data_field ''hobbies'' r = Some (JArray (map JString
           (case hob of None \<Rightarrow> [] | Some h \<Rightarrow> if h = [] then [] else str_split CHR '','' h)))"
    by (subst r) (simp add: data_field_def split: option.splits)
  have 2: "\<exists>pieces. data_field ''hobbies'' r = Some (JArray (map JString pieces))
               \<and> str_join CHR '','' pieces = h \<and> (\<forall>p \<in> set pieces. CHR '','' \<notin> set p)"
    if "hob = Some h" and "h \<noteq> []" for h
  proof -
    from 1 that have "data_field ''hobbies'' r = Some (JArray (map JString (str_split CHR '','' h)))"
      by simp
    then show ?thesis
      using str_join_split [of "CHR '',''" h] str_split_no_sep [of _ "CHR '',''" h] by blast
  qed
  from 1 2 show ?thesis by blast
qed

theorem submit_details_get_hobbies_witness:
  "data_field ''hobbies''
     \<lparr>status_code = 200, headers = [(''X-Robots-Tag'', ''noindex, nofollow'')],
      body = Some (JObject
       [(''message'', JString ''GET request received successfully!''),
        (''data'', JObject
           [(''name'', JString ''Anonymous''),
            (''school'', JString ''Not Specified''),
            (''major'', JString ''Not Specified''),
            (''minor'', JString ''Not Specified''),
            (''hobbies'', JArray [JString ''reading'', JString ''chess'']),
            (''linkedin'', JString ''Not Provided''),
            (''github'', JString ''Not Provided'')])])\<rparr>
   = Some (JArray (map JString (str_split CHR '','' ''reading,chess'')))
  \<and> submit_details_get None None None None (Some ''reading,chess'') None None None
   = Inr \<lparr>status_code = 200, headers = [(''X-Robots-Tag'', ''noindex, nofollow'')],
      body = Some (JObject
       [(''message'', JString ''GET request received successfully!''),
        (''data'', JObject
           [(''name'', JString ''Anonymous''),
            (''school'', JString ''Not Specified''),
            (''major'', JString ''Not Specified''),
            (''minor'', JString ''Not Specified''),
            (''hobbies'', JArray [JString ''reading'', JString ''chess'']),
            (''linkedin'', JString ''Not Provided''),
            (''github'', JString ''Not Provided'')])])\<rparr>"
proof -
  have h: "submit_details_get None None None None (Some ''reading,chess'') None None None
   = Inr \<lparr>status_code = 200, headers = [(''X-Robots-Tag'', ''noindex, nofollow'')],
      body = Some (JObject
       [(''message'', JString ''GET request received successfully!''),
        (''data'', JObject
           [(''name'', JString ''Anonymous''),
            (''school'', JString ''Not Specified''),
            (''major'', JString ''Not Specified''),
            (''minor'', JString ''Not Specified''),
            (''hobbies'', JArray [JString ''reading'', JString ''chess'']),
            (''linkedin'', JString ''Not Provided''),
            (''github'', JString ''Not Provided'')])])\<rparr>"
    by (simp add: submit_details_get_def Let_def JSONResponse_def set_header_def or_else_def)
  from submit_details_get_hobbies [OF h] h show ?thesis by simp
qed

text \<open>
  Claim C3 as it was stated fails when the parameter is present and empty
  (\<^verbatim>\<open>GET /portfolio?hobbies=\<close>): splitting the empty string gives one empty piece, and the
  response holds no piece.
\<close>

theorem hobbies_present_but_empty_counterexample:
  "status_code (send_response
      (submit_details_get None None None None (Some '''') None None None)) = 200
   \<and> data_field ''hobbies'' (send_response
      (submit_details_get None None None None (Some '''') None None None)) = Some (JArray [])
   \<and> JArray (map JString (str_split CHR '','' '''')) = JArray [JString '''']
   \<and> data_field ''hobbies'' (send_response
      (submit_details_get None None None None (Some '''') None None None))
     \<noteq> Some (JArray (map JString (str_split CHR '','' '''')))"
  by (simp add: submit_details_get_def Let_def JSONResponse_def set_header_def or_else_def
      send_response_def data_field_def)

text \<open>
  Claim C4. In a success response of \<^verbatim>\<open>GET /portfolio\<close> every absent field holds its
  placeholder: \<^verbatim>\<open>Anonymous\<close> for the name, \<^verbatim>\<open>Not Specified\<close> for school, major and minor,
  \<^verbatim>\<open>Not Provided\<close> for linkedin and github; with no query parameter at all, the data are
  the placeholders and no hobbies.
\<close>

theorem submit_details_get_placeholders:
  assumes "submit_details_get n s mj mi hob l g ua = Inr r"
  shows "(n = None \<longrightarrow> data_field ''name'' r = Some (JString ''Anonymous''))
       \<and> (s = None \<longrightarrow> data_field ''school'' r = Some (JString ''Not Specified''))
       \<and> (mj = None \<longrightarrow> data_field ''major'' r = Some (JString ''Not Specified''))
       \<and> (mi = None \<longrightarrow> data_field ''minor'' r = Some (JString ''Not Specified''))
       \<and> (l = None \<longrightarrow> data_field ''linkedin'' r = Some (JString ''Not Provided''))
       \<and> (g = None \<longrightarrow> data_field ''github'' r = Some (JString ''Not Provided''))
       \<and> (n = None \<and> s = None \<and> mj = None \<and> mi = None \<and> hob = None \<and> l = None \<and> g = None \<longrightarrow>
            body r = Some (JObject
              [(''message'', JString ''GET request received successfully!''),
               (''data'', JObject
                 [(''name'', JString ''Anonymous''),
                  (''school'', JString ''Not Specified''),
                  (''major'', JString ''Not Specified''),
                  (''minor'', JString ''Not Specified''),
                  (''hobbies'', JArray []),
                  (''linkedin'', JString ''Not Provided''),
                  (''github'', JString ''Not Provided'')])]))"
  by (subst (1 2 3 4 5 6 7) submit_details_get_Inr [OF assms])
     (simp add: data_field_def or_else_def)

theorem submit_details_get_placeholders_witness:
  "submit_details_get None None None None None None None None
     = Inr \<lparr>status_code = 200, headers = [(''X-Robots-Tag'', ''noindex, nofollow'')],
         body = Some (JObject
           [(''message'', JString ''GET request received successfully!''),
            (''data'', JObject
              [(''name'', JString ''Anonymous''),
               (''school'', JString ''Not Specified''),
               (''major'', JString ''Not Specified''),
               (''minor'', JString ''Not Specified''),
               (''hobbies'', JArray []),
               (''linkedin'', JString ''Not Provided''),
               (''github'', JString ''Not Provided'')])])\<rparr>
   \<and> data_field ''name''
       \<lparr>status_code = 200, headers = [(''X-Robots-Tag'', ''noindex, nofollow'')],
         body = Some (JObject
           [(''message'', JString ''GET request received successfully!''),
            (''data'', JObject
              [(''name'', JString ''Anonymous''),
               (''school'', JString ''Not Specified''),
               (''major'', JString ''Not Specified''),
               (''minor'', JString ''Not Specified''),
               (''hobbies'', JArray []),
               (''linkedin'', JString ''Not Provided''),
               (''github'', JString ''Not Provided'')])])\<rparr>
     = Some (JString ''Anonymous'')"
proof -
  have h: "submit_details_get None None None None None None None None
     = Inr \<lparr>status_code = 200, headers = [(''X-Robots-Tag'', ''noindex, nofollow'')],
         body = Some (JObject
           [(''message'', JString ''GET request received successfully!''),
            (''data'', JObject
              [(''name'', JString ''Anonymous''),
               (''school'', JString ''Not Specified''),
               (''major'', JString ''Not Specified''),
               (''minor'', JString ''Not Specified''),
               (''hobbies'', JArray []),
               (''linkedin'', JString ''Not Provided''),
               (''github'', JString ''Not Provided'')])])\<rparr>"
    by (simp add: submit_details_get_def Let_def JSONResponse_def set_header_def or_else_def)
  from submit_details_get_placeholders [OF h] h show ?thesis by simp
qed

text \<open>
  Claim C5. For a body whose \<^verbatim>\<open>name\<close>, \<^verbatim>\<open>school\<close> and \<^verbatim>\<open>major\<close> are non-empty, the
  handler of \<^verbatim>\<open>POST /portfolio\<close> returns the envelope of \<^verbatim>\<open>message\<close> and \<^verbatim>\<open>data\<close>, and every
  field of \<^verbatim>\<open>data\<close> is the submitted field as it came: an absent optional field stays
  absent (\<^verbatim>\<open>null\<close>), no placeholder takes its place. The route answers 200 exactly when
  its limiter lets the request through, as it does for a first request; the body of every
  200 response is that envelope, and a refused request gets the rate-limit response.
\<close>

theorem submit_details_echo:
  assumes "name d = Some n" and "n \<noteq> []" and "school d = Some s" and "s \<noteq> []"
    and "major d = Some m" and "m \<noteq> []"
  shows "submit_details d = Inr (JObject
           [(''message'', JString ''Details received successfully!''),
            (''data'', JObject
               [(''name'', JString n), (''school'', JString s), (''major'', JString m),
                (''minor'', (case minor d of None \<Rightarrow> JNull | Some x \<Rightarrow> JString x)),
                (''hobbies'', (case hobbies d of None \<Rightarrow> JNull | Some xs \<Rightarrow> JArray (map JString xs))),
                (''linkedin'', (case linkedin d of None \<Rightarrow> JNull | Some x \<Rightarrow> JString x)),
                (''github'', (case github d of None \<Rightarrow> JNull | Some x \<Rightarrow> JString x))])])
       \<and> (status_code (fst (post_portfolio st now addr d)) = 200) = fst (hit 10 60 st now addr)
       \<and> (status_code (fst (post_portfolio st now addr d)) = 200 \<longrightarrow>
            body (fst (post_portfolio st now addr d)) = Some (JObject
           [(''message'', JString ''Details received successfully!''),
            (''data'', JObject
               [(''name'', JString n), (''school'', JString s), (''major'', JString m),
                (''minor'', (case minor d of None \<Rightarrow> JNull | Some x \<Rightarrow> JString x)),
                (''hobbies'', (case hobbies d of None \<Rightarrow> JNull | Some xs \<Rightarrow> JArray (map JString xs))),
                (''linkedin'', (case linkedin d of None \<Rightarrow> JNull | Some x \<Rightarrow> JString x)),
                (''github'', (case github d of None \<Rightarrow> JNull | Some x \<Rightarrow> JString x))])]))
       \<and> (\<not> fst (hit 10 60 st now addr) \<longrightarrow>
            fst (post_portfolio st now addr d) = rate_limit_exceeded_handler)
       \<and> status_code (fst (post_portfolio Map.empty now addr d)) = 200"
proof -
  have h: "submit_details d = Inr (JObject
           [(''message'', JString ''Details received successfully!''),
            (''data'', JObject
               [(''name'', JString n), (''school'', JString s), (''major'', JString m),
                (''minor'', (case minor d of None \<Rightarrow> JNull | Some x \<Rightarrow> JString x)),
                (''hobbies'', (case hobbies d of None \<Rightarrow> JNull | Some xs \<Rightarrow> JArray (map JString xs))),
                (''linkedin'', (case linkedin d of None \<Rightarrow> JNull | Some x \<Rightarrow> JString x)),
                (''github'', (case github d of None \<Rightarrow> JNull | Some x \<Rightarrow> JString x))])])"
    using assms
    by (simp add: submit_details_def truthy_def json_of_str_def json_of_strs_def)
  have fresh: "fst (hit 10 60 Map.empty now addr)"
    by (simp add: hit_def)
  have route: "fst (post_portfolio st' now addr d) =
      (if fst (hit 10 60 st' now addr) then send_dict (submit_details d)
       else rate_limit_exceeded_handler)" for st'
    by (simp add: post_portfolio_def split: prod.splits)
  show ?thesis
    using fresh rate_limit_exceeded_status
    by (simp add: h route send_dict_def JSONResponse_def)
qed

theorem submit_details_echo_witness:
  "body (fst (post_portfolio Map.empty 0 ''10.0.0.1''
       \<lparr>name = Some ''Ada'', school = Some ''NYU'', major = Some ''CS'', minor = None,
        hobbies = Some [''reading'', '' chess''], linkedin = Some ''in/ada'', github = None\<rparr>))
     = Some (JObject
           [(''message'', JString ''Details received successfully!''),
            (''data'', JObject
               [(''name'', JString ''Ada''), (''school'', JString ''NYU''), (''major'', JString ''CS''),
                (''minor'', JNull),
                (''hobbies'', JArray [JString ''reading'', JString '' chess'']),
                (''linkedin'', JString ''in/ada''),
                (''github'', JNull)])])
   \<and> status_code (fst (post_portfolio Map.empty 0 ''10.0.0.1''
       \<lparr>name = Some ''Ada'', school = Some ''NYU'', major = Some ''CS'', minor = None,
        hobbies = Some [''reading'', '' chess''], linkedin = Some ''in/ada'', github = None\<rparr>)) = 200
   \<and> submit_details
       \<lparr>name = Some ''Ada'', school = Some ''NYU'', major = Some ''CS'', minor = None,
        hobbies = Some [''reading'', '' chess''], linkedin = Some ''in/ada'', github = None\<rparr>
     = Inr (JObject
           [(''message'', JString ''Details received successfully!''),
            (''data'', JObject
               [(''name'', JString ''Ada''), (''school'', JString ''NYU''), (''major'', JString ''CS''),
                (''minor'', JNull),
                (''hobbies'', JArray [JString ''reading'', JString '' chess'']),
                (''linkedin'', JString ''in/ada''),
                (''github'', JNull)])])
   \<and> fst (post_portfolio (Map.empty(''10.0.0.1'' \<mapsto> (60, 10))) 30 ''10.0.0.1''
       \<lparr>name = Some ''Ada'', school = Some ''NYU'', major = Some ''CS'', minor = None,
        hobbies = Some [''reading'', '' chess''], linkedin = Some ''in/ada'', github = None\<rparr>)
     = rate_limit_exceeded_handler"
proof -
  let ?d = "\<lparr>name = Some ''Ada'', school = Some ''NYU'', major = Some ''CS'', minor = None,
        hobbies = Some [''reading'', '' chess''], linkedin = Some ''in/ada'', github = None\<rparr>"
  have full: "\<not> fst (hit 10 60 (Map.empty(''10.0.0.1'' \<mapsto> (60, 10))) 30 ''10.0.0.1'')"
    by (simp add: hit_def)
  from submit_details_echo [of ?d "''Ada''" "''NYU''" "''CS''" Map.empty 0 "''10.0.0.1''"]
    submit_details_echo [of ?d "''Ada''" "''NYU''" "''CS''"
      "Map.empty(''10.0.0.1'' \<mapsto> (60, 10))" 30 "''10.0.0.1''"] full
  show ?thesis by simp
qed

text \<open>
  Claim C6, amended. Requests to \<^verbatim>\<open>GET /portfolio\<close> served in the order of their timestamps
  from a fresh limiter. A request is answered 429 with the body
  \<^verbatim>\<open>{"message": "Rate limit exceeded. Please try again later."}\<close> exactly when it falls in the
  current one-minute window of its client address and at least 5 earlier requests of that
  address fall in that window; the window of an address opens with its first request, or
  with its first request after the previous window has ended, and lasts 60 seconds. So,
  when all requests fall within one minute, request \<open>k\<close> is refused exactly when more than
  5 of the requests up to and including it come from its address: the 6th request of a
  client is refused, and requests of other clients do not count. And whatever the windows,
  a request is refused only when more than 5 requests from its address, itself included,
  lie within the 60 seconds that end with it.
\<close>

theorem get_portfolio_rate_limit:
  assumes "k < length reqs"
  shows "(sorted (map fst reqs) \<longrightarrow>
            ((serve Map.empty reqs ! k =
                JSONResponse 429
                  (JObject [(''message'', JString ''Rate limit exceeded. Please try again later.'')]))
              = over_limit (take k reqs) (reqs ! k))
          \<and> ((status_code (serve Map.empty reqs ! k) = 429) = over_limit (take k reqs) (reqs ! k)))
       \<and> ((\<forall>tr \<in> set reqs. t0 \<le> fst tr \<and> fst tr < t0 + 60) \<longrightarrow>
            ((serve Map.empty reqs ! k =
                JSONResponse 429
                  (JObject [(''message'', JString ''Rate limit exceeded. Please try again later.'')]))
              = (5 < length (filter (\<lambda>tr. client_host (snd tr) = client_host (snd (reqs ! k)))
                               (take (Suc k) reqs))))
          \<and> ((status_code (serve Map.empty reqs ! k) = 429)
              = (5 < length (filter (\<lambda>tr. client_host (snd tr) = client_host (snd (reqs ! k)))
                               (take (Suc k) reqs)))))
       \<and> (sorted (map fst reqs) \<and> status_code (serve Map.empty reqs ! k) = 429 \<longrightarrow>
            5 < length (filter (\<lambda>tr. client_host (snd tr) = client_host (snd (reqs ! k))
                                      \<and> fst (reqs ! k) - 60 < fst tr)
                          (take (Suc k) reqs)))"
proof (intro conjI impI)
  assume srt: "sorted (map fst reqs)"
  from serve_fresh_over_limit [OF srt assms]
  show "(serve Map.empty reqs ! k =
                JSONResponse 429
                  (JObject [(''message'', JString ''Rate limit exceeded. Please try again later.'')]))
              = over_limit (take k reqs) (reqs ! k)"
    by (simp add: rate_limit_exceeded_handler_def)
  from serve_fresh_over_limit [OF srt assms]
  show "(status_code (serve Map.empty reqs ! k) = 429) = over_limit (take k reqs) (reqs ! k)"
    by simp
next
  assume w: "\<forall>tr \<in> set reqs. t0 \<le> fst tr \<and> fst tr < t0 + 60"
  from serve_nth [OF unexpired_empty w assms]
  show "(serve Map.empty reqs ! k =
                JSONResponse 429
                  (JObject [(''message'', JString ''Rate limit exceeded. Please try again later.'')]))
              = (5 < length (filter (\<lambda>tr. client_host (snd tr) = client_host (snd (reqs ! k)))
                               (take (Suc k) reqs)))"
    by (simp add: counted_def requests_so_far_def rate_limit_exceeded_handler_def)
  from serve_nth [OF unexpired_empty w assms]
  show "(status_code (serve Map.empty reqs ! k) = 429)
              = (5 < length (filter (\<lambda>tr. client_host (snd tr) = client_host (snd (reqs ! k)))
                               (take (Suc k) reqs)))"
    by (simp add: counted_def requests_so_far_def)
next
  assume "sorted (map fst reqs) \<and> status_code (serve Map.empty reqs ! k) = 429"
  then show "5 < length (filter (\<lambda>tr. client_host (snd tr) = client_host (snd (reqs ! k))
                                      \<and> fst (reqs ! k) - 60 < fst tr)
                          (take (Suc k) reqs))"
    using serve_fresh_refused_recent [OF _ assms] by blast
qed

theorem get_portfolio_rate_limit_witness:
  "serve Map.empty [(0, plain_request ''10.0.0.1''), (5, plain_request ''10.0.0.1''),
      (10, plain_request ''10.0.0.2''), (20, plain_request ''10.0.0.1''),
      (30, plain_request ''10.0.0.1''), (40, plain_request ''10.0.0.1''),
      (59, plain_request ''10.0.0.1'')] ! 6
     = JSONResponse 429 (JObject [(''message'', JString ''Rate limit exceeded. Please try again later.'')])
   \<and> status_code (serve Map.empty [(0, plain_request ''10.0.0.1''), (5, plain_request ''10.0.0.1''),
      (10, plain_request ''10.0.0.2''), (20, plain_request ''10.0.0.1''),
      (30, plain_request ''10.0.0.1''), (40, plain_request ''10.0.0.1''),
      (59, plain_request ''10.0.0.1'')] ! 5) \<noteq> 429
   \<and> sorted (map fst [(0::real, plain_request ''10.0.0.1''), (5, plain_request ''10.0.0.1''),
      (10, plain_request ''10.0.0.2''), (20, plain_request ''10.0.0.1''),
      (30, plain_request ''10.0.0.1''), (40, plain_request ''10.0.0.1''),
      (59, plain_request ''10.0.0.1''), (61, plain_request ''10.0.0.1'')])
   \<and> status_code (serve Map.empty [(0, plain_request ''10.0.0.1''), (5, plain_request ''10.0.0.1''),
      (10, plain_request ''10.0.0.2''), (20, plain_request ''10.0.0.1''),
      (30, plain_request ''10.0.0.1''), (40, plain_request ''10.0.0.1''),
      (59, plain_request ''10.0.0.1''), (61, plain_request ''10.0.0.1'')] ! 6) = 429
   \<and> status_code (serve Map.empty [(0, plain_request ''10.0.0.1''), (5, plain_request ''10.0.0.1''),
      (10, plain_request ''10.0.0.2''), (20, plain_request ''10.0.0.1''),
      (30, plain_request ''10.0.0.1''), (40, plain_request ''10.0.0.1''),
      (59, plain_request ''10.0.0.1''), (61, plain_request ''10.0.0.1'')] ! 7) \<noteq> 429
   \<and> 5 < length (filter
       (\<lambda>tr. client_host (snd tr) = client_host (snd ([(0::real, plain_request ''10.0.0.1''),
            (5, plain_request ''10.0.0.1''), (10, plain_request ''10.0.0.2''),
            (20, plain_request ''10.0.0.1''), (30, plain_request ''10.0.0.1''),
            (40, plain_request ''10.0.0.1''), (59, plain_request ''10.0.0.1''),
            (61, plain_request ''10.0.0.1'')] ! 6))
          \<and> fst ([(0::real, plain_request ''10.0.0.1''),
            (5, plain_request ''10.0.0.1''), (10, plain_request ''10.0.0.2''),
            (20, plain_request ''10.0.0.1''), (30, plain_request ''10.0.0.1''),
            (40, plain_request ''10.0.0.1''), (59, plain_request ''10.0.0.1''),
            (61, plain_request ''10.0.0.1'')] ! 6) - 60 < fst tr)
       (take (Suc 6) [(0::real, plain_request ''10.0.0.1''),
            (5, plain_request ''10.0.0.1''), (10, plain_request ''10.0.0.2''),
            (20, plain_request ''10.0.0.1''), (30, plain_request ''10.0.0.1''),
            (40, plain_request ''10.0.0.1''), (59, plain_request ''10.0.0.1''),
            (61, plain_request ''10.0.0.1'')]))"
proof -
  let ?minute = "[(0, plain_request ''10.0.0.1''), (5, plain_request ''10.0.0.1''),
      (10, plain_request ''10.0.0.2''), (20, plain_request ''10.0.0.1''),
      (30, plain_request ''10.0.0.1''), (40, plain_request ''10.0.0.1''),
      (59::real, plain_request ''10.0.0.1'')]"
  let ?longer = "[(0, plain_request ''10.0.0.1''), (5, plain_request ''10.0.0.1''),
      (10, plain_request ''10.0.0.2''), (20, plain_request ''10.0.0.1''),
      (30, plain_request ''10.0.0.1''), (40, plain_request ''10.0.0.1''),
      (59::real, plain_request ''10.0.0.1''), (61, plain_request ''10.0.0.1'')]"
  have h: "\<forall>tr \<in> set ?minute. 0 \<le> fst tr \<and> fst tr < 0 + 60" by simp
  have m6: "6 < length ?minute" and m5: "5 < length ?minute" by simp_all
  have c6: "5 < length (filter (\<lambda>tr. client_host (snd tr) = client_host (snd (?minute ! 6)))
                          (take (Suc 6) ?minute))"
    by (simp add: plain_request_def)
  have c5: "\<not> 5 < length (filter (\<lambda>tr. client_host (snd tr) = client_host (snd (?minute ! 5)))
                            (take (Suc 5) ?minute))"
    by (simp add: plain_request_def)
  note in_minute = get_portfolio_rate_limit [where ?t0.0 = 0, THEN conjunct2, THEN conjunct1, THEN mp]
  note a6 = in_minute [OF m6 h, THEN conjunct1, THEN iffD2, OF c6]
  have b5: "status_code (serve Map.empty ?minute ! 5) \<noteq> 429"
    using in_minute [OF m5 h, THEN conjunct2] c5 by blast
  have s: "sorted (map fst ?longer)" by simp
  have l6: "6 < length ?longer" and l7: "7 < length ?longer" by simp_all
  have o6: "over_limit (take 6 ?longer) (?longer ! 6)"
    by (simp add: over_limit_def window_start_def window_step_def from_since_def plain_request_def)
  have o7: "\<not> over_limit (take 7 ?longer) (?longer ! 7)"
    by (simp add: over_limit_def window_start_def window_step_def from_since_def plain_request_def)
  note windows = get_portfolio_rate_limit [where ?t0.0 = 0, THEN conjunct1, THEN mp]
  note g6 = windows [OF l6 s, THEN conjunct2, THEN iffD2, OF o6]
  have g7: "status_code (serve Map.empty ?longer ! 7) \<noteq> 429"
    using windows [OF l7 s, THEN conjunct2] o7 by blast
  note r6 = get_portfolio_rate_limit [where ?t0.0 = 0, OF l6, THEN conjunct2, THEN conjunct2,
      THEN mp, OF conjI [OF s g6]]
  show ?thesis by (intro conjI a6 b5 s g6 g7 r6)
qed

text \<open>
  Claim C6 as it was stated fails across two windows. Seven requests of one client at the
  seconds 0, 50, 51, 52, 53, 61 and 62: the last is the 6th of its address within the 60
  seconds that end with it, and it is answered 200, because the window opened at second 0
  has ended and the request at second 61 opened a new one.
\<close>

theorem sixth_within_a_minute_admitted_counterexample:
  "status_code (serve Map.empty [(0, plain_request ''10.0.0.1''), (50, plain_request ''10.0.0.1''),
      (51, plain_request ''10.0.0.1''), (52, plain_request ''10.0.0.1''),
      (53, plain_request ''10.0.0.1''), (61, plain_request ''10.0.0.1''),
      (62, plain_request ''10.0.0.1'')] ! 6) = 200
   \<and> length (filter (\<lambda>tr. client_host (snd tr) = ''10.0.0.1'' \<and> 62 - 60 < fst tr)
        [(0::real, plain_request ''10.0.0.1''), (50, plain_request ''10.0.0.1''),
         (51, plain_request ''10.0.0.1''), (52, plain_request ''10.0.0.1''),
         (53, plain_request ''10.0.0.1''), (61, plain_request ''10.0.0.1''),
         (62, plain_request ''10.0.0.1'')]) = 6
   \<and> serve Map.empty [(0, plain_request ''10.0.0.1''), (50, plain_request ''10.0.0.1''),
      (51, plain_request ''10.0.0.1''), (52, plain_request ''10.0.0.1''),
      (53, plain_request ''10.0.0.1''), (61, plain_request ''10.0.0.1''),
      (62, plain_request ''10.0.0.1'')] ! 6
     \<noteq> JSONResponse 429 (JObject [(''message'', JString ''Rate limit exceeded. Please try again later.'')])"
  by (simp add: get_portfolio_def hit_def plain_request_def submit_details_get_def
      send_response_def JSONResponse_def set_header_def or_else_def)

text \<open>
  Claim C7. \<^verbatim>\<open>GET /\<close> answers every request with status 307 and the location
  \<^verbatim>\<open>/portfolio\<close>.
\<close>

theorem get_root_redirect:
  "status_code (get_root request) = 307
   \<and> map_of (headers (get_root request)) ''location'' = Some ''/portfolio''"
  by (simp add: get_root_def redirect_to_main_page_def RedirectResponse_def)

theorem get_root_redirect_witness:
  "status_code (get_root \<lparr>client = ''10.0.0.1'', query_params = [(''name'', ''Ada'')],
      request_headers = [(''user-agent'', ''some-bot/1.0'')], request_body = ''x''\<rparr>) = 307
   \<and> map_of (headers (get_root \<lparr>client = ''10.0.0.1'', query_params = [(''name'', ''Ada'')],
      request_headers = [(''user-agent'', ''some-bot/1.0'')], request_body = ''x''\<rparr>)) ''location''
     = Some ''/portfolio''"
  by (rule get_root_redirect)

text \<open>
  Claim C8. Whatever the request, \<^verbatim>\<open>GET /v1/portfolio\<close> answers 200 with
  \<^verbatim>\<open>{"message": "API Version 1"}\<close> and \<^verbatim>\<open>GET /v2/portfolio\<close> answers 200 with
  \<^verbatim>\<open>{"message": "API Version 2 with improved features!"}\<close>.
\<close>

theorem versioned_portfolio_constant:
  "submit_details_v1 = JObject [(''message'', JString ''API Version 1'')]
   \<and> submit_details_v2 = JObject [(''message'', JString ''API Version 2 with improved features!'')]
   \<and> status_code (get_v1_portfolio request) = 200
   \<and> body (get_v1_portfolio request) = Some (JObject [(''message'', JString ''API Version 1'')])
   \<and> status_code (get_v2_portfolio request) = 200
   \<and> body (get_v2_portfolio request)
       = Some (JObject [(''message'', JString ''API Version 2 with improved features!'')])"
  by (simp add: get_v1_portfolio_def get_v2_portfolio_def submit_details_v1_def
      submit_details_v2_def send_dict_def JSONResponse_def)

theorem versioned_portfolio_constant_witness:
  "submit_details_v1 = JObject [(''message'', JString ''API Version 1'')]
   \<and> submit_details_v2 = JObject [(''message'', JString ''API Version 2 with improved features!'')]
   \<and> status_code (get_v1_portfolio \<lparr>client = ''10.0.0.1'', query_params = [(''name'', ''Ada'')],
         request_headers = [(''user-agent'', ''some-bot/1.0'')], request_body = ''x''\<rparr>) = 200
   \<and> body (get_v1_portfolio \<lparr>client = ''10.0.0.1'', query_params = [(''name'', ''Ada'')],
         request_headers = [(''user-agent'', ''some-bot/1.0'')], request_body = ''x''\<rparr>)
       = Some (JObject [(''message'', JString ''API Version 1'')])
   \<and> status_code (get_v2_portfolio \<lparr>client = ''10.0.0.1'', query_params = [(''name'', ''Ada'')],
         request_headers = [(''user-agent'', ''some-bot/1.0'')], request_body = ''x''\<rparr>) = 200
   \<and> body (get_v2_portfolio \<lparr>client = ''10.0.0.1'', query_params = [(''name'', ''Ada'')],
         request_headers = [(''user-agent'', ''some-bot/1.0'')], request_body = ''x''\<rparr>)
       = Some (JObject [(''message'', JString ''API Version 2 with improved features!'')])"
  by (rule versioned_portfolio_constant)

text \<open>
  Claim C9. Every response of \<^verbatim>\<open>GET /portfolio\<close> with status 200 carries the header
  \<^verbatim>\<open>X-Robots-Tag\<close> with the value \<^verbatim>\<open>noindex, nofollow\<close>, and its body is the envelope of
  \<^verbatim>\<open>message\<close> and \<^verbatim>\<open>data\<close>.
\<close>

theorem submit_details_get_robots_header:
  assumes "status_code (send_response (submit_details_get n s mj mi hob l g ua)) = 200"
  shows "map_of (headers (send_response (submit_details_get n s mj mi hob l g ua))) ''X-Robots-Tag''
           = Some ''noindex, nofollow''
       \<and> (\<exists>d. body (send_response (submit_details_get n s mj mi hob l g ua))
             = Some (JObject [(''message'', JString ''GET request received successfully!''),
                              (''data'', d)]))
       \<and> (\<exists>r. submit_details_get n s mj mi hob l g ua = Inr r)"
proof (cases "submit_details_get n s mj mi hob l g ua")
  case (Inl e)
  then have "e = HTTPException 403 ''Bots are not allowed''"
    by (simp add: submit_details_get_def Let_def split: if_splits)
  with Inl assms show ?thesis
    by (simp add: send_response_def http_exception_handler_def JSONResponse_def)
next
  case (Inr r)
  from submit_details_get_Inr [OF Inr] Inr show ?thesis
    by (simp add: send_response_def)
qed

theorem submit_details_get_robots_header_witness:
  "status_code (send_response (submit_details_get (Some ''Ada'') None None None None None None
       (Some ''curl/8.0''))) = 200
   \<and> map_of (headers (send_response (submit_details_get (Some ''Ada'') None None None None None None
       (Some ''curl/8.0'')))) ''X-Robots-Tag'' = Some ''noindex, nofollow''"
proof -
  have h: "status_code (send_response (submit_details_get (Some ''Ada'') None None None None None
       None (Some ''curl/8.0''))) = 200"
    by (simp add: submit_details_get_def Let_def JSONResponse_def set_header_def send_response_def
        lower_def lower_char_def)
  from submit_details_get_robots_header [OF h] h show ?thesis by simp
qed

text \<open>
  Claim C10. On \<^verbatim>\<open>GET /portfolio\<close> a query parameter that is present and empty is treated
  as an absent one: the handler gives the same result for both, so an empty name, school,
  major, minor, linkedin or github is replaced by its placeholder, and empty hobbies give
  the empty sequence.
\<close>

theorem submit_details_get_empty_as_absent:
  "submit_details_get (Some []) s mj mi hob l g ua = submit_details_get None s mj mi hob l g ua
   \<and> submit_details_get n (Some []) mj mi hob l g ua = submit_details_get n None mj mi hob l g ua
   \<and> submit_details_get n s (Some []) mi hob l g ua = submit_details_get n s None mi hob l g ua
   \<and> submit_details_get n s mj (Some []) hob l g ua = submit_details_get n s mj None hob l g ua
   \<and> submit_details_get n s mj mi (Some []) l g ua = submit_details_get n s mj mi None l g ua
   \<and> submit_details_get n s mj mi hob (Some []) g ua = submit_details_get n s mj mi hob None g ua
   \<and> submit_details_get n s mj mi hob l (Some []) ua = submit_details_get n s mj mi hob l None ua
   \<and> data_field ''name'' (send_response (submit_details_get (Some []) s mj mi hob l g None))
       = Some (JString ''Anonymous'')
   \<and> data_field ''school'' (send_response (submit_details_get n (Some []) mj mi hob l g None))
       = Some (JString ''Not Specified'')
   \<and> data_field ''major'' (send_response (submit_details_get n s (Some []) mi hob l g None))
       = Some (JString ''Not Specified'')
   \<and> data_field ''minor'' (send_response (submit_details_get n s mj (Some []) hob l g None))
       = Some (JString ''Not Specified'')
   \<and> data_field ''hobbies'' (send_response (submit_details_get n s mj mi (Some []) l g None))
       = Some (JArray [])
   \<and> data_field ''linkedin'' (send_response (submit_details_get n s mj mi hob (Some []) g None))
       = Some (JString ''Not Provided'')
   \<and> data_field ''github'' (send_response (submit_details_get n s mj mi hob l (Some []) None))
       = Some (JString ''Not Provided'')"
  by (simp add: submit_details_get_def Let_def or_else_def send_response_def data_field_def
      JSONResponse_def set_header_def)

theorem submit_details_get_empty_as_absent_witness:
  "submit_details_get (Some ''Ada'') None None None (Some '''') None None (Some ''curl/8.0'')
     = submit_details_get (Some ''Ada'') None None None None None None (Some ''curl/8.0'')
   \<and> data_field ''hobbies'' (send_response
         (submit_details_get (Some ''Ada'') None None None (Some '''') None None None))
       = Some (JArray [])
   \<and> data_field ''github'' (send_response
         (submit_details_get (Some ''Ada'') None None None (Some '''') None (Some '''') None))
       = Some (JString ''Not Provided'')"
  using submit_details_get_empty_as_absent [of None None None "Some ''''" None None
      "Some ''curl/8.0''" "Some ''Ada''"]
    submit_details_get_empty_as_absent [of None None None "Some ''''" None "Some ''''" None
      "Some ''Ada''"]
  by simp

end
